theory Spec2Isabelle
  imports Main "HOL-Library.Word"
begin

section \<open>Data model of vacuumTubeMenorah.ino\<close>

text \<open>
  The sketch targets an Arduino Pro Mini (AVR): \<open>int\<close> is 16 bits, \<open>long\<close> is 32 bits,
  \<open>uint8_t\<close> is 8 bits. Struct fields and globals are words of the matching width;
  signed comparisons are \<open>\<le>s\<close> and \<open><s\<close>, and \<open>sint\<close> reads the signed value.
\<close>

datatype level = LOW | HIGH

definition LED_COUNT :: nat where
  "LED_COUNT = 9"

definition MODE_PIN :: "8 word" where
  "MODE_PIN = 8"

definition flickerStartRed :: "16 word" where
  "flickerStartRed = 255"

definition flickerStartGreen :: "16 word" where
  "flickerStartGreen = 96"

definition flickerStartBlue :: "16 word" where
  "flickerStartBlue = 12"

definition flickerDelayHigh :: int where
  "flickerDelayHigh = 50"

definition flickerDelayLow :: int where
  "flickerDelayLow = 50"

definition flickerFlickerHigh :: int where
  "flickerFlickerHigh = 40"

definition flickerFlickerLow :: int where
  "flickerFlickerLow = 0"

text \<open>
  \<open>A0\<close> comes from the board's pin table, which is not part of the sketch; on the
  ATmega328 boards it is 14. No property below depends on its value.
\<close>

definition A0 :: "8 word" where
  "A0 = 14"

record candleLed =
  order :: "16 word"
  pin :: "8 word"
  state :: bool

text \<open>
  The struct member \<open>flicker\<close> shares its name with the function \<open>flicker\<close>; the member
  is \<open>flicker_field\<close> here.
\<close>

record candleFlicker =
  red :: "16 word"
  green :: "16 word"
  blue :: "16 word"
  delay :: "16 word"
  flicker_field :: "16 word"
  time :: "16 word"

text \<open>
  A pixel is the triple of colour arguments handed to the strip driver's
  \<open>setPixelColor(n, r, g, b)\<close>, in argument order, before the driver applies its
  brightness scaling and wire ordering.
\<close>

type_synonym pixel = "8 word \<times> 8 word \<times> 8 word"

text \<open>
  The globals of the sketch, together with the two external collaborators it mutates:
  the strip driver (\<open>pixels\<close> is its pixel buffer as set by \<open>setPixelColor\<close>, \<open>shown\<close> the
  frames transmitted by \<open>show()\<close>, oldest first) and the pseudo-random generator
  (\<open>randomRaw k\<close> is the value the \<open>k\<close>-th call of the library's raw \<open>random()\<close> returns
  for the seed in use, \<open>randomCalls\<close> the number of calls made so far).
\<close>

record menorah =
  candles :: "candleLed list"
  flickers :: "candleFlicker list"
  mode :: "8 word"
  flickerMillisecondsCurrent :: "32 word"
  flickerMillisecondsDifference :: "32 word"
  flickerMillisecondsLast :: "32 word"
  pixels :: "pixel list"
  shown :: "pixel list list"
  randomRaw :: "nat \<Rightarrow> nat"
  randomCalls :: nat

definition candles_init :: "candleLed list" where
  "candles_init =
    [\<lparr>order = 0, pin = A0, state = False\<rparr>,
     \<lparr>order = 1, pin = 6, state = False\<rparr>,
     \<lparr>order = 2, pin = 12, state = False\<rparr>,
     \<lparr>order = 3, pin = 11, state = False\<rparr>,
     \<lparr>order = 4, pin = 10, state = False\<rparr>,
     \<lparr>order = 5, pin = 2, state = False\<rparr>,
     \<lparr>order = 6, pin = 3, state = False\<rparr>,
     \<lparr>order = 7, pin = 4, state = False\<rparr>,
     \<lparr>order = 8, pin = 5, state = False\<rparr>]"

definition flicker_init :: candleFlicker where
  "flicker_init =
    \<lparr>red = flickerStartRed, green = flickerStartGreen, blue = flickerStartBlue,
     delay = 0, flicker_field = 0, time = 0\<rparr>"

text \<open>The nine initialisers of \<open>flickers\<close> are identical; \<open>time\<close> is left to zero.\<close>

definition flickers_init :: "candleFlicker list" where
  "flickers_init = replicate 9 flicker_init"

text \<open>The globals as initialised, with a cleared strip of \<open>LED_COUNT\<close> pixels.\<close>

definition menorah_init :: "(nat \<Rightarrow> nat) \<Rightarrow> menorah" where
  "menorah_init raw =
    \<lparr>candles = candles_init, flickers = flickers_init, mode = 0,
     flickerMillisecondsCurrent = 0, flickerMillisecondsDifference = 0,
     flickerMillisecondsLast = 0,
     pixels = replicate 9 (0, 0, 0), shown = [],
     randomRaw = raw, randomCalls = 0\<rparr>"

section \<open>External collaborators\<close>

text \<open>
  Strip driver: \<open>setPixelColor(n, r, g, b)\<close> stores the three arguments at index \<open>n\<close>
  and ignores an index beyond the strip; \<open>setPixelColor(n, c)\<close> takes a packed
  \<open>0x00RRGGBB\<close> colour; \<open>show()\<close> transmits the buffer; \<open>numPixels()\<close> is the
  length given to the constructor.
\<close>

definition setPixelColor :: "nat \<Rightarrow> 8 word \<Rightarrow> 8 word \<Rightarrow> 8 word \<Rightarrow> menorah \<Rightarrow> menorah" where
  "setPixelColor n r g b s = s\<lparr>pixels := (pixels s)[n := (r, g, b)]\<rparr>"

definition unpackColor :: "32 word \<Rightarrow> pixel" where
  "unpackColor c = (ucast (drop_bit 16 c), ucast (drop_bit 8 c), ucast c)"

definition setPixelColor32 :: "nat \<Rightarrow> 32 word \<Rightarrow> menorah \<Rightarrow> menorah" where
  "setPixelColor32 n c s = s\<lparr>pixels := (pixels s)[n := unpackColor c]\<rparr>"

definition strip_show :: "menorah \<Rightarrow> menorah" where
  "strip_show s = s\<lparr>shown := shown s @ [pixels s]\<rparr>"

definition numPixels :: nat where
  "numPixels = LED_COUNT"

text \<open>
  The Arduino core's \<open>random(howbig)\<close> and \<open>random(howsmall, howbig)\<close>, as the core
  defines them over the raw generator output \<open>raw\<close> (which is never negative):
  \<open>random(howbig)\<close> is 0 for \<open>howbig = 0\<close> and \<open>raw % howbig\<close> otherwise;
  \<open>random(howsmall, howbig)\<close> returns \<open>howsmall\<close> when \<open>howsmall >= howbig\<close> and
  \<open>random(howbig - howsmall) + howsmall\<close> otherwise. The bounds the sketch passes
  (50, 50 and 0, 40) are far from the limits of \<open>long\<close>, so the arithmetic is on \<open>int\<close>.
\<close>

definition random_howbig :: "int \<Rightarrow> nat \<Rightarrow> int" where
  "random_howbig howbig raw = (if howbig = 0 then 0 else int raw mod \<bar>howbig\<bar>)"

definition random_range :: "int \<Rightarrow> int \<Rightarrow> nat \<Rightarrow> int" where
  "random_range howsmall howbig raw =
     (if howsmall \<ge> howbig then howsmall
      else (let diff = howbig - howsmall in random_howbig diff raw + howsmall))"

text \<open>
  How many raw outputs a call consumes: \<open>random(howbig)\<close> calls the raw generator only
  when \<open>howbig\<close> is not 0, and \<open>random(howsmall, howbig)\<close> only when it goes on to
  \<open>random(howbig - howsmall)\<close>. The \<open>raw\<close> argument of the two functions above is the
  output such a call gets; a call that returns early does not look at it.
\<close>

definition random_howbig_draws :: "int \<Rightarrow> nat" where
  "random_howbig_draws howbig = (if howbig = 0 then 0 else 1)"

definition random_range_draws :: "int \<Rightarrow> int \<Rightarrow> nat" where
  "random_range_draws howsmall howbig =
     (if howsmall \<ge> howbig then 0
      else (let diff = howbig - howsmall in random_howbig_draws diff))"

section \<open>readSwitches\<close>

text \<open>
  One pass of the loop body at lines 168-169 for index \<open>candleIndex\<close>: the state is
  first set from the pin's level, then set to true. \<open>digitalRead\<close> is the function
  from pin number to the level on that pin at the time of the call.
\<close>

definition readCandle :: "(8 word \<Rightarrow> level) \<Rightarrow> nat \<Rightarrow> candleLed list \<Rightarrow> candleLed list" where
  "readCandle digitalRead candleIndex cs =
     (let cs1 = cs[candleIndex :=
                     (cs ! candleIndex)\<lparr>state := (digitalRead (pin (cs ! candleIndex)) = LOW)\<rparr>]
      in cs1[candleIndex := (cs1 ! candleIndex)\<lparr>state := True\<rparr>])"

text \<open>The condition of line 176.\<close>

definition modeMismatch :: "level \<Rightarrow> 8 word \<Rightarrow> bool" where
  "modeMismatch modeButtonState m =
     ((modeButtonState = LOW \<and> m = 0) \<or> (modeButtonState = HIGH \<and> m = 1))"

definition readSwitches :: "(8 word \<Rightarrow> level) \<Rightarrow> menorah \<Rightarrow> bool \<times> menorah" where
  "readSwitches digitalRead s =
     (let s1 = s\<lparr>candles := fold (readCandle digitalRead) [0..<LED_COUNT] (candles s)\<rparr>;
          modeButtonState = digitalRead MODE_PIN
      in if modeMismatch modeButtonState (mode s1)
         then (True, s1\<lparr>mode := (if mode s1 = 1 then 0 else 1)\<rparr>)
         else (False, s1))"

text \<open>
  The sketch's \<open>setup()\<close>, named \<open>setup_sketch\<close> here: the strip is cleared and
  transmitted once, the generator is seeded (which fixes \<open>raw\<close>), and the switches are
  read once. Pin modes and brightness are settings of the collaborators that the model
  does not carry.
\<close>

definition setup_sketch :: "(8 word \<Rightarrow> level) \<Rightarrow> (nat \<Rightarrow> nat) \<Rightarrow> menorah" where
  "setup_sketch digitalRead raw = snd (readSwitches digitalRead (strip_show (menorah_init raw)))"

text \<open>Successive calls, each with the pin levels present at that call.\<close>

fun readSwitchesSeq :: "(8 word \<Rightarrow> level) list \<Rightarrow> menorah \<Rightarrow> (bool \<times> menorah) list" where
  "readSwitchesSeq [] s = []"
| "readSwitchesSeq (rd # rds) s =
     (let r = readSwitches rd s in r # readSwitchesSeq rds (snd r))"

section \<open>flicker\<close>

text \<open>
  Lines 212-223: the reset of one candle whose countdown has expired. \<open>raw1\<close> and
  \<open>raw2\<close> are the raw generator outputs that the first and the second \<open>random\<close> call
  get if they draw. The \<open>long\<close> results are stored into \<open>int\<close> members.
\<close>

definition flickerReset :: "candleFlicker \<Rightarrow> nat \<Rightarrow> nat \<Rightarrow> candleFlicker" where
  "flickerReset f raw1 raw2 =
     (let f1 = f\<lparr>delay := word_of_int (random_range flickerDelayLow flickerDelayHigh raw1)\<rparr>;
          f2 = f1\<lparr>flicker_field :=
                    word_of_int (random_range flickerFlickerLow flickerFlickerHigh raw2)\<rparr>;
          f3 = f2\<lparr>red := flickerStartRed - flicker_field f2\<rparr>;
          f4 = f3\<lparr>green := flickerStartGreen - flicker_field f3\<rparr>;
          f5 = f4\<lparr>blue := flickerStartBlue - flicker_field f4\<rparr>;
          f6 = (if red f5 <s 0 then f5\<lparr>red := 0\<rparr> else f5);
          f7 = (if green f6 <s 0 then f6\<lparr>green := 0\<rparr> else f6)
      in (if blue f7 <s 0 then f7\<lparr>blue := 0\<rparr> else f7))"

text \<open>
  Lines 210-234: the loop body for LED \<open>i\<close>. On a reset the generator advances by the
  number of raw outputs each of the two \<open>random\<close> calls consumes: \<open>n1\<close>, \<open>n2\<close> and \<open>n3\<close>
  are the numbers of raw calls made before the first call, between the two, and after
  the second.
\<close>

definition flickerLed :: "nat \<Rightarrow> menorah \<Rightarrow> menorah" where
  "flickerLed i s =
     (let s1 = (if delay (flickers s ! i) \<le>s 0
                then (let n1 = randomCalls s;
                          n2 = n1 + random_range_draws flickerDelayLow flickerDelayHigh;
                          n3 = n2 + random_range_draws flickerFlickerLow flickerFlickerHigh
                      in s\<lparr>flickers := (flickers s)[i :=
                              flickerReset (flickers s ! i) (randomRaw s n1) (randomRaw s n2)],
                           randomCalls := n3\<rparr>)
                else s);
          s2 = (if state (candles s1 ! i)
                then setPixelColor i (ucast (green (flickers s1 ! i)))
                       (ucast (red (flickers s1 ! i))) (ucast (blue (flickers s1 ! i))) s1
                else setPixelColor32 i 0 s1)
      in s2\<lparr>flickers := (flickers s2)[i :=
               (flickers s2 ! i)\<lparr>delay := delay (flickers s2 ! i) - 1\<rparr>]\<rparr>)"

text \<open>
  \<open>flicker\<close>, with \<open>millis\<close> the value \<open>millis()\<close> returns and \<open>digitalRead\<close> the pin
  levels at this call.
\<close>

definition flicker :: "32 word \<Rightarrow> (8 word \<Rightarrow> level) \<Rightarrow> menorah \<Rightarrow> menorah" where
  "flicker millis digitalRead s =
     (let s1 = s\<lparr>flickerMillisecondsCurrent := millis\<rparr>;
          s2 = s1\<lparr>flickerMillisecondsDifference :=
                    flickerMillisecondsCurrent s1 - flickerMillisecondsLast s1\<rparr>
      in if 1 <s flickerMillisecondsDifference s2
         then (let s3 = snd (readSwitches digitalRead s2);
                   s4 = s3\<lparr>flickerMillisecondsLast := flickerMillisecondsCurrent s3\<rparr>;
                   s5 = fold flickerLed [0..<LED_COUNT] s4
               in strip_show s5)
         else s2)"

section \<open>rainbow\<close>

text \<open>
  Line 252: \<open>i * 65536L / strip.numPixels()\<close> is computed in \<open>long\<close>, where it cannot
  overflow for a strip index; the sum with \<open>firstPixelHue\<close> is stored into the
  16-bit \<open>int pixelHue\<close>, which keeps its low 16 bits.
\<close>

definition hueOffset :: "nat \<Rightarrow> int" where
  "hueOffset i = int i * 65536 div int numPixels"

definition pixelHue :: "int \<Rightarrow> nat \<Rightarrow> 16 word" where
  "pixelHue firstPixelHue i = word_of_int (firstPixelHue + hueOffset i)"

text \<open>
  Lines 252-258 for pixel \<open>i\<close>. \<open>colorOf\<close> is the driver's \<open>gamma32(ColorHSV(hue))\<close>,
  whose \<open>hue\<close> parameter is a \<open>uint16_t\<close>.
\<close>

definition rainbowPixel :: "(16 word \<Rightarrow> 32 word) \<Rightarrow> int \<Rightarrow> nat \<Rightarrow> menorah \<Rightarrow> menorah" where
  "rainbowPixel colorOf firstPixelHue i s =
     (if state (candles s ! i)
      then setPixelColor32 i (colorOf (pixelHue firstPixelHue i)) s
      else setPixelColor32 i 0 s)"

text \<open>Lines 250-261: one frame, computed and transmitted.\<close>

definition rainbowFrame :: "(16 word \<Rightarrow> 32 word) \<Rightarrow> int \<Rightarrow> menorah \<Rightarrow> menorah" where
  "rainbowFrame colorOf firstPixelHue s =
     strip_show (fold (rainbowPixel colorOf firstPixelHue) [0..<numPixels] s)"

text \<open>
  The loop of line 245. \<open>firstPixelHue\<close> is a \<open>long\<close> that stays within
  \<open>0 .. 5 * 65536\<close>, so it is an \<open>int\<close> here. \<open>reads k\<close> gives the pin levels at the
  \<open>k\<close>-th iteration's call of \<open>readSwitches\<close>; \<open>k\<close> counts the iterations begun so far.
  The pause \<open>delay(wait)\<close> changes no state.
\<close>

function rainbowLoop ::
  "(nat \<Rightarrow> 8 word \<Rightarrow> level) \<Rightarrow> (16 word \<Rightarrow> 32 word) \<Rightarrow> nat \<Rightarrow> int \<Rightarrow> menorah \<Rightarrow> menorah" where
  "rainbowLoop reads colorOf k firstPixelHue s =
     (if firstPixelHue < 5 * 65536
      then (let r = readSwitches (reads k) s
            in if fst r then snd r
               else rainbowLoop reads colorOf (k + 1) (firstPixelHue + 256)
                      (rainbowFrame colorOf firstPixelHue (snd r)))
      else s)"
  by pat_completeness auto
termination
  by (relation "measure (\<lambda>(reads, colorOf, k, firstPixelHue, s). nat (5 * 65536 - firstPixelHue))")
     auto

declare rainbowLoop.simps [simp del]

definition rainbow ::
  "int \<Rightarrow> (nat \<Rightarrow> 8 word \<Rightarrow> level) \<Rightarrow> (16 word \<Rightarrow> 32 word) \<Rightarrow> menorah \<Rightarrow> menorah" where
  "rainbow wait reads colorOf s = rainbowLoop reads colorOf 0 0 s"

section \<open>Derived notions used in the statements\<close>

text \<open>
  What the loop body of \<open>flicker\<close> does to one LED, as a relation between the candle
  \<open>c\<close>, the flicker entry before (\<open>f\<close>) and after (\<open>f'\<close>) and the pixel \<open>p\<close> set for it,
  for some pair of raw generator outputs.
\<close>

text \<open>
  The frame \<open>rainbow\<close> computes at base hue \<open>firstPixelHue\<close> for the candles \<open>cs\<close>, and
  the same frame when every candle is lit.
\<close>

definition framePixels :: "(16 word \<Rightarrow> 32 word) \<Rightarrow> int \<Rightarrow> candleLed list \<Rightarrow> pixel list" where
  "framePixels colorOf firstPixelHue cs =
     map (\<lambda>i. if state (cs ! i) then unpackColor (colorOf (pixelHue firstPixelHue i))
              else (0, 0, 0)) [0..<numPixels]"

definition litFrame :: "(16 word \<Rightarrow> 32 word) \<Rightarrow> int \<Rightarrow> pixel list" where
  "litFrame colorOf firstPixelHue =
     map (\<lambda>i. unpackColor (colorOf (pixelHue firstPixelHue i))) [0..<numPixels]"


definition ledPost :: "candleLed \<Rightarrow> candleFlicker \<Rightarrow> candleFlicker \<Rightarrow> pixel \<Rightarrow> bool" where
  "ledPost c f f' p \<longleftrightarrow>
     (\<exists>raw1 raw2. let g = (if delay f \<le>s 0 then flickerReset f raw1 raw2 else f)
        in f' = g\<lparr>delay := delay g - 1\<rparr> \<and>
           p = (if state c then (ucast (green g), ucast (red g), ucast (blue g)) else (0, 0, 0)))"

section \<open>Properties of readSwitches\<close>

lemma unpackColor_0: "unpackColor 0 = (0, 0, 0)"
  by (simp add: unpackColor_def)


lemma readCandle_upd:
  "i < length cs \<Longrightarrow> readCandle rd i cs = cs[i := (cs ! i)\<lparr>state := True\<rparr>]"
  by (simp add: readCandle_def Let_def)

lemma fold_readCandle:
  "n \<le> length cs \<Longrightarrow>
   fold (readCandle rd) [0..<n] cs = map (\<lambda>c. c\<lparr>state := True\<rparr>) (take n cs) @ drop n cs"
proof (induction n)
  case 0
  then show ?case by simp
next
  case (Suc n)
  then have n: "n < length cs" by simp
  have "fold (readCandle rd) [0..<Suc n] cs =
        readCandle rd n (map (\<lambda>c. c\<lparr>state := True\<rparr>) (take n cs) @ drop n cs)"
    using Suc by simp
  also have "\<dots> = map (\<lambda>c. c\<lparr>state := True\<rparr>) (take (Suc n) cs) @ drop (Suc n) cs"
    using n
    by (simp add: readCandle_upd list_update_append nth_append take_Suc_conv_app_nth
        Cons_nth_drop_Suc [symmetric])
  finally show ?case .
qed

lemma readSwitches_candles:
  "length (candles s) = LED_COUNT \<Longrightarrow>
   candles (snd (readSwitches rd s)) = map (\<lambda>c. c\<lparr>state := True\<rparr>) (candles s)"
  by (simp add: readSwitches_def Let_def fold_readCandle)

lemma readSwitches_fst: "fst (readSwitches rd s) = modeMismatch (rd MODE_PIN) (mode s)"
  by (simp add: readSwitches_def Let_def)

lemma readSwitches_mode:
  "mode (snd (readSwitches rd s)) =
     (if modeMismatch (rd MODE_PIN) (mode s) then (if mode s = 1 then 0 else 1) else mode s)"
  by (simp add: readSwitches_def Let_def)

lemma readSwitches_untouched:
  "flickers (snd (readSwitches rd s)) = flickers s"
  "pixels (snd (readSwitches rd s)) = pixels s"
  "shown (snd (readSwitches rd s)) = shown s"
  "randomRaw (snd (readSwitches rd s)) = randomRaw s"
  "randomCalls (snd (readSwitches rd s)) = randomCalls s"
  by (simp_all add: readSwitches_def Let_def)

section \<open>Properties of the flicker reset\<close>

lemma random_delay: "random_range flickerDelayLow flickerDelayHigh raw = 50"
  by (simp add: random_range_def flickerDelayLow_def flickerDelayHigh_def)

lemma random_flicker_bounds:
  "0 \<le> random_range flickerFlickerLow flickerFlickerHigh raw"
  "random_range flickerFlickerLow flickerFlickerHigh raw < 40"
  by (simp_all add: random_range_def random_howbig_def flickerFlickerLow_def flickerFlickerHigh_def)

lemma sint_int16: "- 32768 \<le> x \<Longrightarrow> x < 32768 \<Longrightarrow> sint (word_of_int x :: 16 word) = x"
  by (simp add: sint_sbintrunc' signed_take_bit_int_eq_self)

lemma sint_magnitude:
  "sint (word_of_int (random_range flickerFlickerLow flickerFlickerHigh raw) :: 16 word) =
   random_range flickerFlickerLow flickerFlickerHigh raw"
  using random_flicker_bounds [of raw] by (intro sint_int16) simp_all

lemma sint_sub16:
  assumes "- 32768 \<le> sint a - sint b" "sint a - sint b < 32768"
  shows "sint (a - b :: 16 word) = sint a - sint b"
  using assms by (simp add: sint_word_ariths signed_take_bit_int_eq_self)

lemma reset_fields:
  "delay (flickerReset f raw1 raw2) = 50"
  "flicker_field (flickerReset f raw1 raw2) =
     word_of_int (random_range flickerFlickerLow flickerFlickerHigh raw2)"
  by (simp_all add: flickerReset_def Let_def random_delay)

lemma magnitude_bounds:
  "0 \<le> sint (flicker_field (flickerReset f raw1 raw2))"
  "sint (flicker_field (flickerReset f raw1 raw2)) < 40"
  using random_flicker_bounds [of raw2] by (simp_all add: reset_fields sint_magnitude)

lemma start_sint:
  "sint flickerStartRed = 255" "sint flickerStartGreen = 96" "sint flickerStartBlue = 12"
  by (simp_all add: flickerStartRed_def flickerStartGreen_def flickerStartBlue_def)

lemma base_minus_magnitude:
  assumes "0 \<le> sint m" "sint m < 40"
  shows "sint (flickerStartRed - m) = 255 - sint m"
    and "sint (flickerStartGreen - m) = 96 - sint m"
    and "sint (flickerStartBlue - m) = 12 - sint m"
  using assms by (simp_all add: sint_sub16 start_sint)

lemma reset_channels:
  "red (flickerReset f raw1 raw2) =
     (if flickerStartRed - flicker_field (flickerReset f raw1 raw2) <s 0 then 0
      else flickerStartRed - flicker_field (flickerReset f raw1 raw2))"
  "green (flickerReset f raw1 raw2) =
     (if flickerStartGreen - flicker_field (flickerReset f raw1 raw2) <s 0 then 0
      else flickerStartGreen - flicker_field (flickerReset f raw1 raw2))"
  "blue (flickerReset f raw1 raw2) =
     (if flickerStartBlue - flicker_field (flickerReset f raw1 raw2) <s 0 then 0
      else flickerStartBlue - flicker_field (flickerReset f raw1 raw2))"
  by (simp_all add: flickerReset_def Let_def)

lemma reset_max:
  "sint (red (flickerReset f raw1 raw2)) =
     max 0 (sint flickerStartRed - sint (flicker_field (flickerReset f raw1 raw2)))"
  "sint (green (flickerReset f raw1 raw2)) =
     max 0 (sint flickerStartGreen - sint (flicker_field (flickerReset f raw1 raw2)))"
  "sint (blue (flickerReset f raw1 raw2)) =
     max 0 (sint flickerStartBlue - sint (flicker_field (flickerReset f raw1 raw2)))"
proof -
  let ?m = "flicker_field (flickerReset f raw1 raw2)"
  note b = base_minus_magnitude [OF magnitude_bounds [of f raw1 raw2]]
  show "sint (red (flickerReset f raw1 raw2)) = max 0 (sint flickerStartRed - sint ?m)"
    by (subst reset_channels) (simp add: word_sless_alt b start_sint)
  show "sint (green (flickerReset f raw1 raw2)) = max 0 (sint flickerStartGreen - sint ?m)"
    by (subst reset_channels) (simp add: word_sless_alt b start_sint)
  show "sint (blue (flickerReset f raw1 raw2)) = max 0 (sint flickerStartBlue - sint ?m)"
    by (subst reset_channels) (simp add: word_sless_alt b start_sint)
qed

lemma countdown_decrement:
  "\<not> d \<le>s 0 \<Longrightarrow> sint (d - 1 :: 16 word) = sint d - 1"
  using sint_less [of d] by (simp add: word_sle_eq sint_sub16)

section \<open>Properties of the flicker loop\<close>

lemma flickerLed_frame:
  "length (flickers (flickerLed i s)) = length (flickers s)"
  "length (pixels (flickerLed i s)) = length (pixels s)"
  "candles (flickerLed i s) = candles s"
  "shown (flickerLed i s) = shown s"
  "mode (flickerLed i s) = mode s"
  by (simp_all add: flickerLed_def Let_def setPixelColor_def setPixelColor32_def
      unpackColor_0)

lemma flickerLed_other:
  "j \<noteq> i \<Longrightarrow> flickers (flickerLed i s) ! j = flickers s ! j"
  "j \<noteq> i \<Longrightarrow> pixels (flickerLed i s) ! j = pixels s ! j"
  by (simp_all add: flickerLed_def Let_def setPixelColor_def setPixelColor32_def
      unpackColor_0)

lemma flickerLed_post:
  assumes "i < length (flickers s)" "i < length (pixels s)"
  shows "ledPost (candles s ! i) (flickers s ! i) (flickers (flickerLed i s) ! i)
           (pixels (flickerLed i s) ! i)"
  unfolding ledPost_def
  apply (rule exI [of _ "randomRaw s (randomCalls s)"])
  apply (rule exI [of _ "randomRaw s (randomCalls s +
                           random_range_draws flickerDelayLow flickerDelayHigh)"])
  using assms
  by (simp add: flickerLed_def Let_def setPixelColor_def setPixelColor32_def
      unpackColor_0)

lemma fold_flickerLed:
  assumes "n \<le> length (flickers s)" "n \<le> length (pixels s)"
  shows "length (flickers (fold flickerLed [0..<n] s)) = length (flickers s) \<and>
         length (pixels (fold flickerLed [0..<n] s)) = length (pixels s) \<and>
         candles (fold flickerLed [0..<n] s) = candles s \<and>
         shown (fold flickerLed [0..<n] s) = shown s \<and>
         mode (fold flickerLed [0..<n] s) = mode s \<and>
         (\<forall>i\<ge>n. flickers (fold flickerLed [0..<n] s) ! i = flickers s ! i) \<and>
         (\<forall>i<n. ledPost (candles s ! i) (flickers s ! i)
                   (flickers (fold flickerLed [0..<n] s) ! i)
                   (pixels (fold flickerLed [0..<n] s) ! i))"
  using assms
proof (induction n)
  case 0
  then show ?case by simp
next
  case (Suc n)
  let ?t = "fold flickerLed [0..<n] s"
  have ih: "length (flickers ?t) = length (flickers s)" "length (pixels ?t) = length (pixels s)"
    "candles ?t = candles s" "shown ?t = shown s" "mode ?t = mode s"
    "\<And>i. n \<le> i \<Longrightarrow> flickers ?t ! i = flickers s ! i"
    "\<And>i. i < n \<Longrightarrow> ledPost (candles s ! i) (flickers s ! i) (flickers ?t ! i) (pixels ?t ! i)"
    using Suc by simp_all
  have step: "fold flickerLed [0..<Suc n] s = flickerLed n ?t" by simp
  have n: "n < length (flickers ?t)" "n < length (pixels ?t)"
    using Suc.prems ih by simp_all
  have at: "ledPost (candles s ! n) (flickers s ! n) (flickers (flickerLed n ?t) ! n)
              (pixels (flickerLed n ?t) ! n)"
    using flickerLed_post [OF n] ih(3) ih(6) [of n] by simp
  have below: "ledPost (candles s ! i) (flickers s ! i) (flickers (flickerLed n ?t) ! i)
              (pixels (flickerLed n ?t) ! i)" if "i < Suc n" for i
  proof (cases "i = n")
    case True
    then show ?thesis using at by simp
  next
    case False
    then have "i < n" using that by simp
    then show ?thesis using ih(7) [of i] False by (simp add: flickerLed_other)
  qed
  have above: "flickers (flickerLed n ?t) ! i = flickers s ! i" if "Suc n \<le> i" for i
    using that ih(6) [of i] by (simp add: flickerLed_other)
  show ?case
    unfolding step using ih(1-5) below above by (simp add: flickerLed_frame)
qed

lemma ledPost_facts:
  assumes "ledPost c f f' p"
  shows "delay f \<le>s 0 \<longrightarrow>
           sint (red f') = max 0 (sint flickerStartRed - sint (flicker_field f')) \<and>
           sint (green f') = max 0 (sint flickerStartGreen - sint (flicker_field f')) \<and>
           sint (blue f') = max 0 (sint flickerStartBlue - sint (flicker_field f'))"
    and "p = (if state c then (ucast (green f'), ucast (red f'), ucast (blue f')) else (0, 0, 0))"
    and "sint (delay f') = (if delay f \<le>s 0 then 50 else sint (delay f)) - 1"
proof -
  from assms obtain raw1 raw2 where
    f': "f' = (if delay f \<le>s 0 then flickerReset f raw1 raw2 else f)
              \<lparr>delay := delay (if delay f \<le>s 0 then flickerReset f raw1 raw2 else f) - 1\<rparr>"
    and p: "p = (if state c
                 then (ucast (green (if delay f \<le>s 0 then flickerReset f raw1 raw2 else f)),
                       ucast (red (if delay f \<le>s 0 then flickerReset f raw1 raw2 else f)),
                       ucast (blue (if delay f \<le>s 0 then flickerReset f raw1 raw2 else f)))
                 else (0, 0, 0))"
    unfolding ledPost_def Let_def by blast
  show "delay f \<le>s 0 \<longrightarrow>
           sint (red f') = max 0 (sint flickerStartRed - sint (flicker_field f')) \<and>
           sint (green f') = max 0 (sint flickerStartGreen - sint (flicker_field f')) \<and>
           sint (blue f') = max 0 (sint flickerStartBlue - sint (flicker_field f'))"
    using reset_max [of f raw1 raw2] by (simp add: f')
  show "p = (if state c then (ucast (green f'), ucast (red f'), ucast (blue f')) else (0, 0, 0))"
    by (simp add: p f')
  show "sint (delay f') = (if delay f \<le>s 0 then 50 else sint (delay f)) - 1"
    by (simp add: f' reset_fields countdown_decrement)
qed

lemma ledPost_magnitude:
  assumes "ledPost c f f' p" "delay f \<le>s 0"
  shows "0 \<le> sint (flicker_field f')" "sint (flicker_field f') < 40"
proof -
  from assms obtain raw1 raw2 where
    f': "f' = (flickerReset f raw1 raw2)\<lparr>delay := delay (flickerReset f raw1 raw2) - 1\<rparr>"
    unfolding ledPost_def Let_def by auto
  show "0 \<le> sint (flicker_field f')" "sint (flicker_field f') < 40"
    using magnitude_bounds [of f raw1 raw2] by (simp_all add: f')
qed







lemma flicker_tick:
  assumes "1 <s millis - flickerMillisecondsLast s"
  shows "flicker millis rd s =
         strip_show (fold flickerLed [0..<LED_COUNT]
           ((snd (readSwitches rd
               (s\<lparr>flickerMillisecondsCurrent := millis,
                  flickerMillisecondsDifference := millis - flickerMillisecondsLast s\<rparr>)))
             \<lparr>flickerMillisecondsLast := millis\<rparr>))"
proof -
  have "flickerMillisecondsCurrent (snd (readSwitches rd
               (s\<lparr>flickerMillisecondsCurrent := millis,
                  flickerMillisecondsDifference := millis - flickerMillisecondsLast s\<rparr>))) = millis"
    by (simp add: readSwitches_def Let_def)
  then show ?thesis
    using assms by (simp add: flicker_def Let_def)
qed

lemma flicker_tick_leds:
  assumes "1 <s millis - flickerMillisecondsLast s"
    and "length (candles s) = LED_COUNT" "length (flickers s) = LED_COUNT"
    and "length (pixels s) = LED_COUNT" "i < LED_COUNT"
  shows "shown (flicker millis rd s) = shown s @ [pixels (flicker millis rd s)]"
    and "length (pixels (flicker millis rd s)) = LED_COUNT"
    and "ledPost ((candles s ! i)\<lparr>state := True\<rparr>) (flickers s ! i)
           (flickers (flicker millis rd s) ! i) (pixels (flicker millis rd s) ! i)"
proof -
  let ?s2 = "s\<lparr>flickerMillisecondsCurrent := millis,
                  flickerMillisecondsDifference := millis - flickerMillisecondsLast s\<rparr>"
  let ?s4 = "(snd (readSwitches rd ?s2))\<lparr>flickerMillisecondsLast := millis\<rparr>"
  have c4: "candles ?s4 = map (\<lambda>c. c\<lparr>state := True\<rparr>) (candles s)"
    using assms(2) readSwitches_candles [of ?s2 rd] by simp
  have u4: "flickers ?s4 = flickers s" "pixels ?s4 = pixels s" "shown ?s4 = shown s"
    by (simp_all add: readSwitches_untouched)
  have len: "LED_COUNT \<le> length (flickers ?s4)" "LED_COUNT \<le> length (pixels ?s4)"
    using assms by (simp_all add: u4)
  note loop = fold_flickerLed [OF len]
  have eq: "flicker millis rd s = strip_show (fold flickerLed [0..<LED_COUNT] ?s4)"
    by (rule flicker_tick [OF assms(1)])
  show "shown (flicker millis rd s) = shown s @ [pixels (flicker millis rd s)]"
    unfolding eq using loop by (simp add: strip_show_def u4)
  show "length (pixels (flicker millis rd s)) = LED_COUNT"
    unfolding eq using loop assms(4) by (simp add: strip_show_def u4)
  have "ledPost (candles ?s4 ! i) (flickers ?s4 ! i)
          (flickers (fold flickerLed [0..<LED_COUNT] ?s4) ! i)
          (pixels (fold flickerLed [0..<LED_COUNT] ?s4) ! i)"
    using loop assms(5) by blast
  then show "ledPost ((candles s ! i)\<lparr>state := True\<rparr>) (flickers s ! i)
           (flickers (flicker millis rd s) ! i) (pixels (flicker millis rd s) ! i)"
    unfolding eq using assms(2,5) by (simp add: strip_show_def c4 u4)
qed

section \<open>Conversions between the integer widths\<close>

lemma uint_sint16:
  assumes "0 \<le> sint (w :: 16 word)"
  shows "uint w = sint w"
proof -
  have "sint w < 65536" using sint_less [of w] by simp
  then show ?thesis using assms by (simp add: uint_sint take_bit_int_eq_self)
qed

lemma ucast_nonzero:
  assumes "0 < sint (w :: 16 word)" "sint w < 256"
  shows "(ucast w :: 8 word) \<noteq> 0"
proof -
  have u: "uint w = sint w" using assms by (simp add: uint_sint16)
  have "\<not> (256 :: int) dvd sint w"
    using assms by (auto dest: zdvd_imp_le simp: zdvd_not_zless)
  then have "(word_of_int (uint w) :: 8 word) \<noteq> 0"
    unfolding u word_of_int_eq_0_iff by simp
  then show ?thesis
    unfolding ucast_eq .
qed


section \<open>Claims about the switch reader and the flicker animator\<close>

text \<open>
  C1. The claim is that after \<open>readSwitches\<close> a candle's \<open>state\<close> is true exactly when
  its pin reads LOW. The code overrides the value just read with \<open>true\<close> (line 169):
  from the initial state, with every pin reading HIGH, all nine states are true after
  the call.
\<close>

theorem readSwitches_forces_state:
  "map state (candles (snd (readSwitches (\<lambda>p. HIGH) (menorah_init (\<lambda>k. 0))))) =
     replicate 9 True"
  by (simp add: readSwitches_candles menorah_init_def candles_init_def LED_COUNT_def
      numeral_eq_Suc)

text \<open>
  C2. The claim is that in flicker mode, with every switch line reading HIGH, every
  pixel of the transmitted frame is (0,0,0). Because \<open>readSwitches\<close> forces every
  state to true, the first throttled tick after \<open>setup\<close> (\<open>millis() = 2\<close>, every pin
  HIGH throughout) transmits a frame of nine pixels none of which is (0,0,0).
\<close>

theorem flicker_all_switches_off_lit:
  "length (last (shown (flicker 2 (\<lambda>p. HIGH) (setup_sketch (\<lambda>p. HIGH) (\<lambda>k. 0))))) = 9 \<and>
   (0, 0, 0) \<notin> set (last (shown (flicker 2 (\<lambda>p. HIGH) (setup_sketch (\<lambda>p. HIGH) (\<lambda>k. 0)))))"
proof -
  let ?s = "setup_sketch (\<lambda>p. HIGH) (\<lambda>k. 0)"
  let ?s' = "flicker 2 (\<lambda>p. HIGH) ?s"
  have fl: "flickers ?s = flickers_init" and px0: "pixels ?s = replicate 9 (0, 0, 0)"
    by (simp_all add: setup_sketch_def readSwitches_untouched strip_show_def menorah_init_def)
  have op: "1 <s 2 - flickerMillisecondsLast ?s"
    by (simp add: setup_sketch_def readSwitches_def Let_def strip_show_def menorah_init_def
        word_sless_alt)
  have "length (candles (strip_show (menorah_init (\<lambda>k. 0)))) = LED_COUNT"
    by (simp add: strip_show_def menorah_init_def candles_init_def LED_COUNT_def)
  then have cl: "length (candles ?s) = LED_COUNT"
    by (simp add: setup_sketch_def readSwitches_candles)
  have len: "length (candles ?s) = LED_COUNT" "length (flickers ?s) = LED_COUNT"
    "length (pixels ?s) = LED_COUNT"
    by (simp_all add: cl fl px0 flickers_init_def LED_COUNT_def)
  note tick = flicker_tick_leds [where rd = "\<lambda>p. HIGH", OF op len]
  have last: "last (shown ?s') = pixels ?s'"
    using tick(1) [of 0] by (simp add: LED_COUNT_def)
  have n: "length (pixels ?s') = 9"
    using tick(2) [of 0] by (simp add: LED_COUNT_def)
  have px: "pixels ?s' ! i \<noteq> (0, 0, 0)" if "i < 9" for i
  proof -
    have i: "i < LED_COUNT" using that by (simp add: LED_COUNT_def)
    have d: "delay (flickers ?s ! i) \<le>s 0"
      using that by (simp add: fl flickers_init_def flicker_init_def)
    note post = tick(3) [OF i]
    note facts = ledPost_facts [OF post] ledPost_magnitude [OF post d]
    have "sint (red (flickers ?s' ! i)) = 255 - sint (flicker_field (flickers ?s' ! i))"
      using facts(1) facts(4,5) d by (simp add: start_sint)
    then have "ucast (red (flickers ?s' ! i)) \<noteq> (0 :: 8 word)"
      using facts(4,5) by (intro ucast_nonzero) simp_all
    then show ?thesis
      using facts(2) by simp
  qed
  have "(0, 0, 0) \<notin> set (pixels ?s')"
    using px n by (auto simp: in_set_conv_nth)
  then show ?thesis
    using last n by simp
qed

text \<open>
  C3, as stated, fails: the drawn countdown is \<open>random(50, 50)\<close>, which is 50 and so
  not in [0,50). At a concrete reset the conjunction of the four stated bounds is false.
\<close>

theorem drawn_delay_not_below_50:
  "\<not> (0 \<le> sint (delay (flickerReset flicker_init 0 0)) \<and>
      sint (delay (flickerReset flicker_init 0 0)) < 50 \<and>
      0 \<le> sint (flicker_field (flickerReset flicker_init 0 0)) \<and>
      sint (flicker_field (flickerReset flicker_init 0 0)) < 40)"
  by (simp add: reset_fields)

text \<open>
  C3 (amended). On a reset, the newly drawn countdown duration is exactly 50 (both
  configured bounds are 50) and the newly drawn flicker magnitude lies in [0,40).
\<close>

theorem drawn_delay_and_magnitude:
  "sint (delay (flickerReset f raw1 raw2)) = 50 \<and>
   0 \<le> sint (flicker_field (flickerReset f raw1 raw2)) \<and>
   sint (flicker_field (flickerReset f raw1 raw2)) < 40"
  using magnitude_bounds [of f raw1 raw2] by (simp add: reset_fields)

text \<open>
  C7. For every LED whose countdown has expired when the loop of a tick reaches it,
  after the loop each of its red, green and blue values is at least 0, whatever
  magnitude was drawn.
\<close>

theorem reset_colour_never_negative:
  assumes "length (flickers s) = LED_COUNT" "length (pixels s) = LED_COUNT"
    and "i < LED_COUNT" "delay (flickers s ! i) \<le>s 0"
  shows "0 \<le> sint (red (flickers (fold flickerLed [0..<LED_COUNT] s) ! i)) \<and>
         0 \<le> sint (green (flickers (fold flickerLed [0..<LED_COUNT] s) ! i)) \<and>
         0 \<le> sint (blue (flickers (fold flickerLed [0..<LED_COUNT] s) ! i))"
proof -
  have "ledPost (candles s ! i) (flickers s ! i)
          (flickers (fold flickerLed [0..<LED_COUNT] s) ! i)
          (pixels (fold flickerLed [0..<LED_COUNT] s) ! i)"
    using fold_flickerLed [of LED_COUNT s] assms(1-3) by simp
  from ledPost_facts(1) [OF this] assms(4) show ?thesis
    by simp
qed

theorem reset_colour_never_negative_witness:
  "0 \<le> sint (red (flickers (fold flickerLed [0..<LED_COUNT] (menorah_init (\<lambda>k. 13))) ! 0)) \<and>
   0 \<le> sint (green (flickers (fold flickerLed [0..<LED_COUNT] (menorah_init (\<lambda>k. 13))) ! 0)) \<and>
   0 \<le> sint (blue (flickers (fold flickerLed [0..<LED_COUNT] (menorah_init (\<lambda>k. 13))) ! 0))"
  using reset_colour_never_negative [of "menorah_init (\<lambda>k. 13)" 0]
  by (simp add: menorah_init_def flickers_init_def flicker_init_def LED_COUNT_def)



text \<open>
  C10. On every reset the drawn magnitude is below 40, so the red and green values
  before clamping (255 and 96 minus the magnitude) are not negative and are stored
  unclamped; the blue value can be clamped: with the raw draw 13 the value before
  clamping is negative and 0 is stored.
\<close>

theorem clamp_only_blue:
  "sint (flicker_field (flickerReset f raw1 raw2)) < 40 \<and>
   0 \<le>s flickerStartRed - flicker_field (flickerReset f raw1 raw2) \<and>
   0 \<le>s flickerStartGreen - flicker_field (flickerReset f raw1 raw2) \<and>
   red (flickerReset f raw1 raw2) = flickerStartRed - flicker_field (flickerReset f raw1 raw2) \<and>
   green (flickerReset f raw1 raw2) = flickerStartGreen - flicker_field (flickerReset f raw1 raw2) \<and>
   flickerStartBlue - flicker_field (flickerReset f raw1 13) <s 0 \<and>
   blue (flickerReset f raw1 13) = 0"
proof -
  let ?m = "flicker_field (flickerReset f raw1 raw2)"
  note m = magnitude_bounds [of f raw1 raw2]
  note b = base_minus_magnitude [OF m]
  have r: "0 \<le>s flickerStartRed - ?m" and g: "0 \<le>s flickerStartGreen - ?m"
    using m by (simp_all add: word_sle_eq b)
  have nr: "\<not> flickerStartRed - ?m <s 0" and ng: "\<not> flickerStartGreen - ?m <s 0"
    using r g by (simp_all add: signed.not_less)
  have r': "red (flickerReset f raw1 raw2) = flickerStartRed - ?m"
    by (subst reset_channels) (simp only: nr if_False)
  have g': "green (flickerReset f raw1 raw2) = flickerStartGreen - ?m"
    by (subst reset_channels) (simp only: ng if_False)
  have m13: "flicker_field (flickerReset f raw1 13) = 13"
    by (simp add: reset_fields random_range_def random_howbig_def flickerFlickerLow_def
        flickerFlickerHigh_def)
  have b13: "flickerStartBlue - flicker_field (flickerReset f raw1 13) <s 0"
    by (simp add: m13 flickerStartBlue_def word_sless_alt)
  have b': "blue (flickerReset f raw1 13) = 0"
    by (subst reset_channels) (simp only: b13 if_True)
  show ?thesis
    using m(2) r g r' g' b13 b' by simp
qed

section \<open>Repeated calls of readSwitches\<close>

lemma readSwitches_settles:
  "\<not> modeMismatch (rd MODE_PIN) (mode (snd (readSwitches rd s)))"
  by (cases "rd MODE_PIN") (auto simp: readSwitches_mode modeMismatch_def)

lemma readSwitchesSeq_length [simp]: "length (readSwitchesSeq rds s) = length rds"
  by (induction rds arbitrary: s) (simp_all add: Let_def)

lemma readSwitchesSeq_quiet:
  assumes "\<forall>rd \<in> set rds. rd MODE_PIN = l" "\<not> modeMismatch l (mode s)" "j < length rds"
  shows "\<not> fst (readSwitchesSeq rds s ! j) \<and> mode (snd (readSwitchesSeq rds s ! j)) = mode s"
  using assms
proof (induction rds arbitrary: s j)
  case Nil
  then show ?case by simp
next
  case (Cons rd rds)
  have l: "rd MODE_PIN = l" using Cons.prems(1) by simp
  have q: "\<not> fst (readSwitches rd s)" "mode (snd (readSwitches rd s)) = mode s"
    using Cons.prems(2) l by (simp_all add: readSwitches_fst readSwitches_mode)
  show ?case
  proof (cases j)
    case 0
    then show ?thesis using q by (simp add: Let_def)
  next
    case (Suc j')
    have "\<not> fst (readSwitchesSeq rds (snd (readSwitches rd s)) ! j') \<and>
          mode (snd (readSwitchesSeq rds (snd (readSwitches rd s)) ! j')) =
            mode (snd (readSwitches rd s))"
      using Cons.prems Suc q by (intro Cons.IH) simp_all
    then show ?thesis using Suc q by (simp add: Let_def)
  qed
qed

text \<open>
  C4. Mode toggling is edge-triggered. In any sequence of \<open>readSwitches\<close> calls during
  which the mode line stays at one level \<open>l\<close>, every call \<open>j\<close> that comes after some
  earlier call \<open>i\<close> of the sequence (in particular after the call that detected a
  transition) returns false and leaves the mode as it was after call \<open>i\<close>.
\<close>

theorem mode_toggle_edge_triggered:
  assumes "\<forall>rd \<in> set rds. rd MODE_PIN = l" "i < j" "j < length rds"
  shows "\<not> fst (readSwitchesSeq rds s ! j) \<and>
         mode (snd (readSwitchesSeq rds s ! j)) = mode (snd (readSwitchesSeq rds s ! i))"
  using assms
proof (induction rds arbitrary: s i j)
  case Nil
  then show ?case by simp
next
  case (Cons rd rds)
  obtain j' where j: "j = Suc j'" using Cons.prems(2) by (cases j) simp_all
  let ?s1 = "snd (readSwitches rd s)"
  have l: "rd MODE_PIN = l" and rest: "\<forall>rd \<in> set rds. rd MODE_PIN = l"
    using Cons.prems(1) by simp_all
  have j': "j' < length rds" using Cons.prems(3) j by simp
  show ?case
  proof (cases i)
    case 0
    have "\<not> modeMismatch l (mode ?s1)"
      using readSwitches_settles [of rd s] l by simp
    from readSwitchesSeq_quiet [OF rest this j'] show ?thesis
      using 0 j by (simp add: Let_def)
  next
    case (Suc i')
    have "\<not> fst (readSwitchesSeq rds ?s1 ! j') \<and>
          mode (snd (readSwitchesSeq rds ?s1 ! j')) = mode (snd (readSwitchesSeq rds ?s1 ! i'))"
      using rest j' Cons.prems(2) Suc j by (intro Cons.IH) simp_all
    then show ?thesis using Suc j by (simp add: Let_def)
  qed
qed

theorem mode_toggle_edge_triggered_witness:
  "fst (readSwitchesSeq [\<lambda>p. LOW, \<lambda>p. LOW, \<lambda>p. LOW] (menorah_init (\<lambda>k. 0)) ! 0) \<and>
   \<not> fst (readSwitchesSeq [\<lambda>p. LOW, \<lambda>p. LOW, \<lambda>p. LOW] (menorah_init (\<lambda>k. 0)) ! 2) \<and>
   mode (snd (readSwitchesSeq [\<lambda>p. LOW, \<lambda>p. LOW, \<lambda>p. LOW] (menorah_init (\<lambda>k. 0)) ! 2)) = 1"
  using mode_toggle_edge_triggered [of "[\<lambda>p. LOW, \<lambda>p. LOW, \<lambda>p. LOW]" LOW 0 2 "menorah_init (\<lambda>k. 0)"]
  by (simp add: Let_def readSwitches_fst readSwitches_mode modeMismatch_def menorah_init_def)

section \<open>Properties of the rainbow sweep\<close>

lemma rainbowPixel_frame:
  "candles (rainbowPixel col h i s) = candles s"
  "mode (rainbowPixel col h i s) = mode s"
  "shown (rainbowPixel col h i s) = shown s"
  "pixels (rainbowPixel col h i s) =
     (pixels s)[i := (if state (candles s ! i) then unpackColor (col (pixelHue h i))
                      else (0, 0, 0))]"
  by (simp_all add: rainbowPixel_def setPixelColor32_def unpackColor_0)

lemma fold_rainbowPixel:
  assumes "n \<le> length (pixels s)"
  shows "candles (fold (rainbowPixel col h) [0..<n] s) = candles s \<and>
         mode (fold (rainbowPixel col h) [0..<n] s) = mode s \<and>
         shown (fold (rainbowPixel col h) [0..<n] s) = shown s \<and>
         pixels (fold (rainbowPixel col h) [0..<n] s) =
           map (\<lambda>i. if state (candles s ! i) then unpackColor (col (pixelHue h i))
                    else (0, 0, 0)) [0..<n] @ drop n (pixels s)"
  using assms
proof (induction n)
  case 0
  then show ?case by simp
next
  case (Suc n)
  let ?t = "fold (rainbowPixel col h) [0..<n] s"
  let ?px = "\<lambda>i. if state (candles s ! i) then unpackColor (col (pixelHue h i)) else (0, 0, 0)"
  have ih: "candles ?t = candles s" "mode ?t = mode s" "shown ?t = shown s"
    "pixels ?t = map ?px [0..<n] @ drop n (pixels s)"
    using Suc by simp_all
  have n: "n < length (pixels s)" using Suc.prems by simp
  have "pixels (rainbowPixel col h n ?t) = (map ?px [0..<n] @ drop n (pixels s))[n := ?px n]"
    by (simp add: rainbowPixel_frame ih)
  also have "\<dots> = map ?px [0..<n] @ (drop n (pixels s))[0 := ?px n]"
    by (simp add: list_update_append)
  also have "drop n (pixels s) = pixels s ! n # drop (Suc n) (pixels s)"
    using n by (simp add: Cons_nth_drop_Suc)
  finally have "pixels (rainbowPixel col h n ?t) = map ?px [0..<Suc n] @ drop (Suc n) (pixels s)"
    by simp
  then show ?case
    by (simp add: rainbowPixel_frame ih)
qed

lemma rainbowFrame_facts:
  assumes "length (pixels s) = LED_COUNT"
  shows "candles (rainbowFrame col h s) = candles s"
    and "mode (rainbowFrame col h s) = mode s"
    and "pixels (rainbowFrame col h s) = framePixels col h (candles s)"
    and "shown (rainbowFrame col h s) = shown s @ [framePixels col h (candles s)]"
  using fold_rainbowPixel [of numPixels s col h] assms
  by (simp_all add: rainbowFrame_def strip_show_def framePixels_def numPixels_def)

lemma framePixels_lit:
  assumes "length cs = LED_COUNT"
  shows "framePixels col h (map (\<lambda>c. c\<lparr>state := True\<rparr>) cs) = litFrame col h"
  using assms by (simp add: framePixels_def litFrame_def numPixels_def)

lemma length_litFrame: "length (litFrame col h) = LED_COUNT"
  by (simp add: litFrame_def numPixels_def)

lemma rainbow_step:
  assumes "length (candles s) = LED_COUNT" "length (pixels s) = LED_COUNT"
    and "\<not> modeMismatch (rd MODE_PIN) (mode s)"
  shows "candles (rainbowFrame col h (snd (readSwitches rd s))) =
           map (\<lambda>c. c\<lparr>state := True\<rparr>) (candles s)"
    and "mode (rainbowFrame col h (snd (readSwitches rd s))) = mode s"
    and "pixels (rainbowFrame col h (snd (readSwitches rd s))) = litFrame col h"
    and "shown (rainbowFrame col h (snd (readSwitches rd s))) = shown s @ [litFrame col h]"
proof -
  let ?r = "snd (readSwitches rd s)"
  have p: "length (pixels ?r) = LED_COUNT"
    using assms(2) by (simp add: readSwitches_untouched)
  have c: "candles ?r = map (\<lambda>c. c\<lparr>state := True\<rparr>) (candles s)"
    by (rule readSwitches_candles [OF assms(1)])
  note f = rainbowFrame_facts [OF p, of col h]
  show "candles (rainbowFrame col h ?r) = map (\<lambda>c. c\<lparr>state := True\<rparr>) (candles s)"
    by (simp add: f c)
  show "mode (rainbowFrame col h ?r) = mode s"
    using assms(3) by (simp add: f readSwitches_mode)
  show "pixels (rainbowFrame col h ?r) = litFrame col h"
    by (simp add: f c framePixels_lit [OF assms(1)])
  show "shown (rainbowFrame col h ?r) = shown s @ [litFrame col h]"
    by (simp add: f c framePixels_lit [OF assms(1)] readSwitches_untouched)
qed

lemma rainbowLoop_complete:
  assumes "length (candles s) = LED_COUNT" "length (pixels s) = LED_COUNT"
    and "k + n = 1280"
    and "\<forall>j. k \<le> j \<and> j < 1280 \<longrightarrow> \<not> modeMismatch (reads j MODE_PIN) (mode s)"
  shows "shown (rainbowLoop reads col k (256 * int k) s) =
           shown s @ map (\<lambda>j. litFrame col (256 * int j)) [k..<1280] \<and>
         mode (rainbowLoop reads col k (256 * int k) s) = mode s"
  using assms
proof (induction n arbitrary: k s)
  case 0
  then have "k = 1280" by simp
  then show ?case
    by (subst (1 2) rainbowLoop.simps) simp
next
  case (Suc n)
  then have k: "k < 1280" by simp
  let ?s' = "rainbowFrame col (256 * int k) (snd (readSwitches (reads k) s))"
  have quiet: "\<not> modeMismatch (reads k MODE_PIN) (mode s)"
    using Suc.prems(4) k by simp
  note st = rainbow_step [where rd = "reads k" and col = col and h = "256 * int k",
      OF Suc.prems(1,2) quiet]
  have unfold: "rainbowLoop reads col k (256 * int k) s =
                rainbowLoop reads col (Suc k) (256 * int (Suc k)) ?s'"
    using k quiet
    by (subst rainbowLoop.simps) (simp add: Let_def readSwitches_fst algebra_simps)
  have "shown (rainbowLoop reads col (Suc k) (256 * int (Suc k)) ?s') =
           shown ?s' @ map (\<lambda>j. litFrame col (256 * int j)) [Suc k..<1280] \<and>
         mode (rainbowLoop reads col (Suc k) (256 * int (Suc k)) ?s') = mode ?s'"
  proof (rule Suc.IH)
    show "length (candles ?s') = LED_COUNT" using Suc.prems(1) by (simp add: st)
    show "length (pixels ?s') = LED_COUNT" by (simp add: st length_litFrame)
    show "Suc k + n = 1280" using Suc.prems(3) by simp
    show "\<forall>j. Suc k \<le> j \<and> j < 1280 \<longrightarrow> \<not> modeMismatch (reads j MODE_PIN) (mode ?s')"
      using Suc.prems(4) by (simp add: st)
  qed
  then show ?case
    unfolding unfold using k by (simp add: st upt_conv_Cons)
qed

lemma modeMismatch_modes: "modeMismatch l m \<Longrightarrow> m = 0 \<or> m = 1"
  by (auto simp: modeMismatch_def)

lemma rainbowLoop_abort:
  assumes "length (candles s) = LED_COUNT" "length (pixels s) = LED_COUNT"
    and "k + n = c" "c < 1280"
    and "\<forall>j. k \<le> j \<and> j < c \<longrightarrow> \<not> modeMismatch (reads j MODE_PIN) (mode s)"
    and "modeMismatch (reads c MODE_PIN) (mode s)"
  shows "shown (rainbowLoop reads col k (256 * int k) s) =
           shown s @ map (\<lambda>j. litFrame col (256 * int j)) [k..<c] \<and>
         mode (rainbowLoop reads col k (256 * int k) s) = 1 - mode s \<and>
         pixels (rainbowLoop reads col k (256 * int k) s) =
           (if n = 0 then pixels s else litFrame col (256 * int (c - 1)))"
  using assms
proof (induction n arbitrary: k s)
  case 0
  then have k: "k = c" by simp
  have m: "mode s = 0 \<or> mode s = 1"
    using "0.prems"(6) by (rule modeMismatch_modes)
  have "rainbowLoop reads col k (256 * int k) s = snd (readSwitches (reads c) s)"
    using "0.prems"(4,6) k
    by (subst rainbowLoop.simps) (simp add: Let_def readSwitches_fst)
  then show ?case
    using "0.prems"(6) m k by (auto simp: readSwitches_mode readSwitches_untouched)
next
  case (Suc n)
  then have k: "k < c" "k < 1280" by simp_all
  let ?s' = "rainbowFrame col (256 * int k) (snd (readSwitches (reads k) s))"
  have quiet: "\<not> modeMismatch (reads k MODE_PIN) (mode s)"
    using Suc.prems(5) k by simp
  note st = rainbow_step [where rd = "reads k" and col = col and h = "256 * int k",
      OF Suc.prems(1,2) quiet]
  have unfold: "rainbowLoop reads col k (256 * int k) s =
                rainbowLoop reads col (Suc k) (256 * int (Suc k)) ?s'"
    using k quiet
    by (subst rainbowLoop.simps) (simp add: Let_def readSwitches_fst algebra_simps)
  have ih: "shown (rainbowLoop reads col (Suc k) (256 * int (Suc k)) ?s') =
           shown ?s' @ map (\<lambda>j. litFrame col (256 * int j)) [Suc k..<c] \<and>
         mode (rainbowLoop reads col (Suc k) (256 * int (Suc k)) ?s') = 1 - mode ?s' \<and>
         pixels (rainbowLoop reads col (Suc k) (256 * int (Suc k)) ?s') =
           (if n = 0 then pixels ?s' else litFrame col (256 * int (c - 1)))"
  proof (rule Suc.IH)
    show "length (candles ?s') = LED_COUNT" using Suc.prems(1) by (simp add: st)
    show "length (pixels ?s') = LED_COUNT" by (simp add: st length_litFrame)
    show "Suc k + n = c" using Suc.prems(3) by simp
    show "c < 1280" by (rule Suc.prems(4))
    show "\<forall>j. Suc k \<le> j \<and> j < c \<longrightarrow> \<not> modeMismatch (reads j MODE_PIN) (mode ?s')"
      using Suc.prems(5) by (simp add: st)
    show "modeMismatch (reads c MODE_PIN) (mode ?s')"
      using Suc.prems(6) by (simp add: st)
  qed
  have px: "pixels (rainbowLoop reads col (Suc k) (256 * int (Suc k)) ?s') =
              litFrame col (256 * int (c - 1))"
  proof (cases "n = 0")
    case True
    then have "c - 1 = k" using Suc.prems(3) by simp
    then have "litFrame col (256 * int (c - 1)) = pixels ?s'"
      by (simp only: st(3))
    then show ?thesis using ih True by simp
  next
    case False
    then show ?thesis using ih by simp
  qed
  have sh: "shown (rainbowLoop reads col (Suc k) (256 * int (Suc k)) ?s') =
              shown s @ map (\<lambda>j. litFrame col (256 * int j)) [k..<c]"
    using ih k(1) by (simp add: st(4) upt_conv_Cons)
  have md: "mode (rainbowLoop reads col (Suc k) (256 * int (Suc k)) ?s') = 1 - mode s"
    using ih by (simp add: st(2))
  show ?case
    unfolding unfold using px sh md by simp
qed

text \<open>
  C5. If at none of the 1280 polls the condition that \<open>readSwitches\<close> returns holds
  (no mode change is reported), \<open>rainbow\<close> transmits exactly 1280 frames, the \<open>j\<close>-th
  computed at base hue \<open>256 * j\<close>, and returns with the mode unchanged. \<open>rainbow\<close> is a
  total function: the sweep always returns.
\<close>

theorem rainbow_full_sweep:
  assumes "length (candles s) = LED_COUNT" "length (pixels s) = LED_COUNT"
    and "\<forall>j<1280. \<not> modeMismatch (reads j MODE_PIN) (mode s)"
  shows "shown (rainbow wait reads colorOf s) =
           shown s @ map (\<lambda>j. litFrame colorOf (256 * int j)) [0..<1280] \<and>
         length (shown (rainbow wait reads colorOf s)) = length (shown s) + 1280 \<and>
         mode (rainbow wait reads colorOf s) = mode s"
proof -
  have "shown (rainbowLoop reads colorOf 0 (256 * int 0) s) =
           shown s @ map (\<lambda>j. litFrame colorOf (256 * int j)) [0..<1280] \<and>
         mode (rainbowLoop reads colorOf 0 (256 * int 0) s) = mode s"
    using assms by (intro rainbowLoop_complete [where n = 1280]) simp_all
  then show ?thesis
    by (simp add: rainbow_def)
qed

theorem rainbow_full_sweep_witness:
  "length (shown (rainbow 10 (\<lambda>j p. LOW) (\<lambda>h. 0) ((menorah_init (\<lambda>k. 0))\<lparr>mode := 1\<rparr>))) = 1280"
  using rainbow_full_sweep [of "(menorah_init (\<lambda>k. 0))\<lparr>mode := 1\<rparr>" "\<lambda>j p. LOW" 10 "\<lambda>h. 0"]
  by (simp add: menorah_init_def candles_init_def LED_COUNT_def modeMismatch_def)

text \<open>
  C6. If the first poll that reports a mode change is poll \<open>c\<close> of the sweep, then
  \<open>rainbow\<close> returns having transmitted exactly the \<open>c\<close> frames before it, fewer than
  1280; the pixel buffer still holds the last frame transmitted (or is untouched when
  \<open>c = 0\<close>), so no further frame was computed; and the mode is the opposite one.
\<close>

theorem rainbow_abort_on_mode_change:
  assumes "length (candles s) = LED_COUNT" "length (pixels s) = LED_COUNT"
    and "c < 1280"
    and "\<forall>j<c. \<not> modeMismatch (reads j MODE_PIN) (mode s)"
    and "modeMismatch (reads c MODE_PIN) (mode s)"
  shows "shown (rainbow wait reads colorOf s) =
           shown s @ map (\<lambda>j. litFrame colorOf (256 * int j)) [0..<c] \<and>
         length (shown (rainbow wait reads colorOf s)) = length (shown s) + c \<and>
         length (shown (rainbow wait reads colorOf s)) < length (shown s) + 1280 \<and>
         pixels (rainbow wait reads colorOf s) =
           (if c = 0 then pixels s else litFrame colorOf (256 * int (c - 1))) \<and>
         mode (rainbow wait reads colorOf s) = 1 - mode s \<and>
         mode (rainbow wait reads colorOf s) \<noteq> mode s"
proof -
  have m: "mode s = 0 \<or> mode s = 1"
    using assms(5) by (rule modeMismatch_modes)
  have "shown (rainbowLoop reads colorOf 0 (256 * int 0) s) =
           shown s @ map (\<lambda>j. litFrame colorOf (256 * int j)) [0..<c] \<and>
         mode (rainbowLoop reads colorOf 0 (256 * int 0) s) = 1 - mode s \<and>
         pixels (rainbowLoop reads colorOf 0 (256 * int 0) s) =
           (if c = 0 then pixels s else litFrame colorOf (256 * int (c - 1)))"
    using assms by (intro rainbowLoop_abort [where n = c]) simp_all
  then show ?thesis
    using assms(3) m by (auto simp: rainbow_def)
qed

theorem rainbow_abort_on_mode_change_witness:
  "length (shown (rainbow 10 (\<lambda>j p. if j < 3 then LOW else HIGH) (\<lambda>h. 0)
      ((menorah_init (\<lambda>k. 0))\<lparr>mode := 1\<rparr>))) = 3 \<and>
   mode (rainbow 10 (\<lambda>j p. if j < 3 then LOW else HIGH) (\<lambda>h. 0)
      ((menorah_init (\<lambda>k. 0))\<lparr>mode := 1\<rparr>)) = 0"
  using rainbow_abort_on_mode_change [of "(menorah_init (\<lambda>k. 0))\<lparr>mode := 1\<rparr>" 3
      "\<lambda>j p. if j < 3 then LOW else HIGH" 10 "\<lambda>h. 0"]
  by (simp add: menorah_init_def candles_init_def LED_COUNT_def modeMismatch_def)

section \<open>Hue offsets along the strip\<close>

lemma hueOffset_values:
  "map hueOffset [0, 1, 2, 3, 4, 5, 6, 7, 8] =
     [0, 7281, 14563, 21845, 29127, 36408, 43690, 50972, 58254]"
  by (simp add: hueOffset_def numPixels_def LED_COUNT_def)

lemma below_numPixels:
  "i < numPixels \<Longrightarrow> i = 0 \<or> i = 1 \<or> i = 2 \<or> i = 3 \<or> i = 4 \<or> i = 5 \<or> i = 6 \<or> i = 7 \<or> i = 8"
  unfolding numPixels_def LED_COUNT_def by arith

lemma hueOffset_range:
  assumes "i < numPixels"
  shows "0 \<le> hueOffset i" "hueOffset i \<le> 58254"
  using below_numPixels [OF assms] hueOffset_values by auto

lemma pixelHue_relative:
  assumes "i < numPixels"
  shows "uint (pixelHue h i - pixelHue h 0) = hueOffset i"
proof -
  have z: "hueOffset 0 = 0" by (simp add: hueOffset_def)
  have "pixelHue h i - pixelHue h 0 = (word_of_int (hueOffset i) :: 16 word)"
    by (simp add: pixelHue_def z)
  moreover have "uint (word_of_int (hueOffset i) :: 16 word) = hueOffset i"
    using hueOffset_range [OF assms] by (simp add: uint_word_of_int take_bit_int_eq_self)
  ultimately show ?thesis by simp
qed

lemma pixelHue_from_base:
  "pixelHue h i = word_of_int h + word_of_int (hueOffset i)"
  by (simp add: pixelHue_def)

lemma pixelHue_base_relative:
  assumes "i < numPixels"
  shows "uint (pixelHue h i - word_of_int h) = hueOffset i"
proof -
  have "pixelHue h i - word_of_int h = (word_of_int (hueOffset i) :: 16 word)"
    by (simp add: pixelHue_from_base)
  moreover have "uint (word_of_int (hueOffset i) :: 16 word) = hueOffset i"
    using hueOffset_range [OF assms] by (simp add: uint_word_of_int take_bit_int_eq_self)
  ultimately show ?thesis by simp
qed

lemma rainbowFrame_pixel:
  assumes "length (pixels s) = LED_COUNT" "i < numPixels" "state (candles s ! i)"
  shows "pixels (rainbowFrame colorOf h s) ! i =
           unpackColor (colorOf (word_of_int h + word_of_int (hueOffset i)))"
  using assms
  by (simp add: rainbowFrame_facts framePixels_def pixelHue_from_base)

text \<open>
  C9. In a rainbow frame at base hue \<open>firstPixelHue\<close>, the hue handed to the driver for
  LED \<open>i\<close> lies \<open>i * 65536 / 9\<close> (integer division) beyond the base hue on the 16-bit hue
  wheel, and the pixel a lit LED \<open>i\<close> gets in the frame is the driver's colour for that
  hue. The offset is 0 for LED 0, whose hue is the base hue itself; it grows by 7281 or
  7282 from one LED to the next, is largest for LED 8 and stays below 65536.
\<close>

theorem rainbow_hue_offsets:
  assumes "i < numPixels"
  shows "hueOffset i = int i * 65536 div 9 \<and>
         hueOffset 0 = 0 \<and>
         (i + 1 < numPixels \<longrightarrow>
            hueOffset (i + 1) - hueOffset i = 7281 \<or> hueOffset (i + 1) - hueOffset i = 7282) \<and>
         hueOffset i \<le> hueOffset 8 \<and>
         hueOffset 8 < 65536 \<and>
         uint (pixelHue firstPixelHue i - pixelHue firstPixelHue 0) = hueOffset i \<and>
         uint (pixelHue firstPixelHue i - word_of_int firstPixelHue) = int i * 65536 div 9 \<and>
         pixelHue firstPixelHue 0 = word_of_int firstPixelHue \<and>
         (length (pixels s) = LED_COUNT \<longrightarrow> state (candles s ! i) \<longrightarrow>
            pixels (rainbowFrame colorOf firstPixelHue s) ! i =
              unpackColor (colorOf (word_of_int firstPixelHue +
                                    word_of_int (int i * 65536 div 9))))"
proof -
  have a: "hueOffset i = int i * 65536 div 9"
    by (simp add: hueOffset_def numPixels_def LED_COUNT_def)
  have b: "hueOffset 0 = 0" by (simp add: hueOffset_def)
  have c: "i + 1 < numPixels \<longrightarrow>
            hueOffset (i + 1) - hueOffset i = 7281 \<or> hueOffset (i + 1) - hueOffset i = 7282"
    using below_numPixels [OF assms]
    by (auto simp: hueOffset_def numPixels_def LED_COUNT_def)
  have d: "hueOffset i \<le> hueOffset 8" "hueOffset 8 < 65536"
    using hueOffset_range [OF assms] hueOffset_values by simp_all
  have e: "uint (pixelHue firstPixelHue i - word_of_int firstPixelHue) = int i * 65536 div 9"
    using pixelHue_base_relative [OF assms, of firstPixelHue] a by simp
  have f: "pixelHue firstPixelHue 0 = word_of_int firstPixelHue"
    by (simp add: pixelHue_from_base b)
  have g: "length (pixels s) = LED_COUNT \<longrightarrow> state (candles s ! i) \<longrightarrow>
            pixels (rainbowFrame colorOf firstPixelHue s) ! i =
              unpackColor (colorOf (word_of_int firstPixelHue +
                                    word_of_int (int i * 65536 div 9)))"
    using rainbowFrame_pixel [OF _ assms, of s colorOf firstPixelHue] a by simp
  show ?thesis
    using a b c d e f g pixelHue_relative [OF assms, of firstPixelHue] by blast
qed

theorem rainbow_hue_offsets_witness:
  "hueOffset 3 = 21845 \<and> hueOffset 4 - hueOffset 3 = 7282 \<and>
   uint (pixelHue 65280 3 - word_of_int 65280) = 21845 \<and>
   uint (pixelHue 65280 3 - pixelHue 65280 0) = 21845 \<and>
   pixels (rainbowFrame (\<lambda>hue. ucast hue) 65280 (setup_sketch (\<lambda>p. HIGH) (\<lambda>k. 0))) ! 3 =
     unpackColor 21589"
proof -
  let ?s = "setup_sketch (\<lambda>p. HIGH) (\<lambda>k. 0)"
  have "length (candles (strip_show (menorah_init (\<lambda>k. 0)))) = LED_COUNT"
    by (simp add: strip_show_def menorah_init_def candles_init_def LED_COUNT_def)
  then have cs: "candles ?s = map (\<lambda>c. c\<lparr>state := True\<rparr>) candles_init"
    by (simp add: setup_sketch_def readSwitches_candles strip_show_def menorah_init_def)
  have px: "length (pixels ?s) = LED_COUNT"
    by (simp add: setup_sketch_def readSwitches_untouched strip_show_def menorah_init_def
        LED_COUNT_def)
  have lit: "state (candles ?s ! 3)"
    by (simp add: cs candles_init_def)
  have i: "3 < numPixels" "3 + 1 < numPixels"
    by (simp_all add: numPixels_def LED_COUNT_def)
  note hue = rainbow_hue_offsets [OF i(1), of 65280 ?s "\<lambda>hue. ucast hue"]
  have v: "hueOffset 3 = 21845"
    using hue by simp
  have st: "hueOffset 4 - hueOffset 3 = 7282"
    using hue i(2) hueOffset_values by simp
  have fr: "pixels (rainbowFrame (\<lambda>hue. ucast hue) 65280 ?s) ! 3 = unpackColor 21589"
    using hue px lit by simp
  show ?thesis
    using hue v st fr by simp
qed

end
